theory Spec2Isabelle
  imports Main "HOL-Library.Word" "HOL-Library.Monad_Syntax"
begin

unbundle bit_operations_syntax

section \<open>Modbus Serial Line/RTU client: the model of rtu.go\<close>

type_synonym byte = "8 word"
type_synonym uint16 = "16 word"

subsection \<open>Constants declared outside rtu.go\<close>

text \<open>
  rtu.go uses the package constants \<open>RTU_FRAME_MAXSIZE\<close>, \<open>FUNCTION_WRITE_SINGLE_COIL\<close>,
  \<open>FUNCTION_WRITE_SINGLE_REGISTER\<close> and \<open>FUNCTION_WRITE_MULTIPLE_REGISTERS\<close>, whose
  declarations are in another file of the package. They are parameters of the model:
  every function below takes the record of their values. \<open>RTU_FRAME_MAXSIZE\<close> is the
  length given to \<open>make\<close>, so it is a natural number; the three function codes are
  compared with a \<open>byte\<close>.
\<close>

record pkg_consts =
  RTU_FRAME_MAXSIZE :: nat
  FUNCTION_WRITE_SINGLE_COIL :: byte
  FUNCTION_WRITE_SINGLE_REGISTER :: byte
  FUNCTION_WRITE_MULTIPLE_REGISTERS :: byte

text \<open>
  Modelled from the spec: the values of the constants above, which are missing from the
  sources. The spec names the write codes of the Modbus protocol (write single coil,
  write single register, write multiple registers) and "the protocol's maximum ADU
  size"; the Modbus serial line protocol fixes them as 0x05, 0x06, 0x10 and 256 bytes.
  This instance is used to run the model on concrete inputs only.
\<close>

definition modbus_consts :: pkg_consts where
  "modbus_consts =
     \<lparr>RTU_FRAME_MAXSIZE = 256,
      FUNCTION_WRITE_SINGLE_COIL = 0x05,
      FUNCTION_WRITE_SINGLE_REGISTER = 0x06,
      FUNCTION_WRITE_MULTIPLE_REGISTERS = 0x10\<rparr>"

subsection \<open>crc\<close>

text \<open>
  The body of the inner loop \<open>for j := 0; j < 8; j++\<close>: one shift of the accumulator.
\<close>

definition crc_step :: "uint16 \<Rightarrow> uint16" where
  "crc_step crc16 =
     (if crc16 AND 0x0001 > 0 then drop_bit 1 crc16 XOR 0xA001 else drop_bit 1 crc16)"

function crc_bits :: "nat \<Rightarrow> uint16 \<Rightarrow> uint16" where
  "crc_bits j crc16 = (if j < 8 then crc_bits (j + 1) (crc_step crc16) else crc16)"
  by pat_completeness auto
termination
  by (relation "measure (\<lambda>(j, crc16). 8 - j)") auto

text \<open>The outer loop \<open>for i := 0; i < l; i++\<close> over the bytes of \<open>data\<close>.\<close>

function crc_loop :: "byte list \<Rightarrow> nat \<Rightarrow> uint16 \<Rightarrow> uint16" where
  "crc_loop data i crc16 =
     (if i < length data
      then crc_loop data (i + 1) (crc_bits 0 (crc16 XOR ucast (data ! i)))
      else crc16)"
  by pat_completeness auto
termination
  by (relation "measure (\<lambda>(data, i, crc16). length data - i)") auto

definition crc :: "byte list \<Rightarrow> uint16" where
  "crc data = crc_loop data 0 0xffff"

subsection \<open>GenerateRTUFrame\<close>

text \<open>
  The struct \<open>RTUFrame\<close> is declared outside rtu.go; its fields and their types are those
  that \<open>viaRTU\<close> assigns and \<open>GenerateRTUFrame\<close> reads. A nil \<open>Data\<close> slice and an empty one
  are both the empty list (only \<open>len\<close> and indexing are applied to it).
\<close>

record RTUFrame =
  SlaveAddress :: byte
  FunctionCode :: byte
  StartRegister :: uint16
  NumberOfRegisters :: uint16
  Data :: "byte list"

text \<open>
  Go checks every index and every slice bound at run time and panics when it is out of
  range. A computation that can panic returns an \<open>option\<close>: \<open>None\<close> is the run-time
  panic. \<open>put p i v\<close> is the assignment \<open>p[i] = v\<close>, \<open>slice_to p n\<close> the expression
  \<open>p[:n]\<close> (the capacity of every slice sliced here equals its length).
\<close>

definition put :: "byte list \<Rightarrow> nat \<Rightarrow> byte \<Rightarrow> byte list option" where
  "put p i v = (if i < length p then Some (p[i := v]) else None)"

definition slice_to :: "byte list \<Rightarrow> nat \<Rightarrow> byte list option" where
  "slice_to p n = (if n \<le> length p then Some (take n p) else None)"

text \<open>The loop \<open>for i := 0; i < dataLen; i++ { packet[(bytesUsed + i)] = frame.Data[i] }\<close>.\<close>

function copy_data :: "byte list \<Rightarrow> nat \<Rightarrow> byte list \<Rightarrow> nat \<Rightarrow> byte list option" where
  "copy_data packet bytesUsed data i =
     (if i < length data
      then (case put packet (bytesUsed + i) (data ! i) of
              None \<Rightarrow> None
            | Some packet' \<Rightarrow> copy_data packet' bytesUsed data (i + 1))
      else Some packet)"
  by pat_completeness auto
termination
  by (relation "measure (\<lambda>(packet, bytesUsed, data, i). length data - i)") auto

text \<open>
  The \<open>switch\<close> on the function code: the first matching case is taken. The result is
  the pair \<open>(insertNumOfRegister, insertDataLen)\<close>.
\<close>

definition layout :: "pkg_consts \<Rightarrow> byte \<Rightarrow> bool \<times> bool" where
  "layout c fc =
     (if fc = FUNCTION_WRITE_SINGLE_COIL c \<or> fc = FUNCTION_WRITE_SINGLE_REGISTER c
      then (False, False)
      else if fc = FUNCTION_WRITE_MULTIPLE_REGISTERS c then (True, True)
      else (True, False))"

definition GenerateRTUFrame :: "pkg_consts \<Rightarrow> RTUFrame \<Rightarrow> byte list option" where
  "GenerateRTUFrame c frame =
     (let (insertNumOfRegister, insertDataLen) = layout c (FunctionCode frame);
          dataLen = length (Data frame);
          packetLen = (if dataLen > 0 then RTU_FRAME_MAXSIZE c else 9);
          packet = replicate packetLen (0 :: byte)
      in do {
        packet \<leftarrow> put packet 0 (SlaveAddress frame);
        packet \<leftarrow> put packet 1 (FunctionCode frame);
        packet \<leftarrow> put packet 2 (ucast (drop_bit 8 (StartRegister frame)));
        packet \<leftarrow> put packet 3 (ucast (StartRegister frame AND 0xff));
        (packet, bytesUsed) \<leftarrow>
          (if insertNumOfRegister
           then do {
             packet \<leftarrow> put packet 4 (ucast (drop_bit 8 (NumberOfRegisters frame)));
             packet \<leftarrow> put packet (4 + 1) (ucast (NumberOfRegisters frame AND 0xff));
             Some (packet, 4 + 2)
           }
           else Some (packet, 4));
        (packet, bytesUsed) \<leftarrow>
          (if insertDataLen
           then do {
             packet \<leftarrow> put packet bytesUsed (of_nat dataLen);
             Some (packet, bytesUsed + 1)
           }
           else Some (packet, bytesUsed));
        packet \<leftarrow> copy_data packet bytesUsed (Data frame) 0;
        let bytesUsed = bytesUsed + dataLen;
        body \<leftarrow> slice_to packet bytesUsed;
        let packetCrc = crc body;
        packet \<leftarrow> put packet bytesUsed (ucast (packetCrc AND 0xff));
        packet \<leftarrow> put packet (bytesUsed + 1) (ucast (drop_bit 8 packetCrc));
        slice_to packet (bytesUsed + 2)
      })"

subsection \<open>The exception table\<close>

text \<open>
  Modelled from the spec: the exception codes \<open>EXCEPTION_*\<close> and the table
  \<open>MODBUS_EXCEPTIONS\<close> are declared outside rtu.go. The spec gives the wire values of the
  four codes a slave sends (0x01 illegal function, 0x02 illegal data address, 0x03
  illegal data value, 0x04 slave device failure) and two catch-all kinds that are not
  wire values (unspecified, bad checksum). \<open>modbus_error\<close> is the entry of
  \<open>MODBUS_EXCEPTIONS\<close> under each of the six keys \<open>EXCEPTION_ILLEGAL_FUNCTION\<close>,
  \<open>EXCEPTION_DATA_ADDRESS\<close>, \<open>EXCEPTION_DATA_VALUE\<close>, \<open>EXCEPTION_SLAVE_DEVICE_FAILURE\<close>,
  \<open>EXCEPTION_UNSPECIFIED\<close> and \<open>EXCEPTION_BAD_CHECKSUM\<close>: each key has an entry, and the
  entries are distinct error values.
\<close>

definition EXCEPTION_ILLEGAL_FUNCTION :: byte where
  "EXCEPTION_ILLEGAL_FUNCTION = 0x01"

definition EXCEPTION_DATA_ADDRESS :: byte where
  "EXCEPTION_DATA_ADDRESS = 0x02"

definition EXCEPTION_DATA_VALUE :: byte where
  "EXCEPTION_DATA_VALUE = 0x03"

definition EXCEPTION_SLAVE_DEVICE_FAILURE :: byte where
  "EXCEPTION_SLAVE_DEVICE_FAILURE = 0x04"

datatype modbus_error =
  IllegalFunction | IllegalDataAddress | IllegalDataValue | SlaveDeviceFailure
  | Unspecified | BadChecksum

text \<open>
  A Go \<open>error\<close> returned by \<open>viaRTU\<close> is an entry of the table or the error of the
  transport, passed through as it is (\<open>'e\<close> is the transport's error type); \<open>nil\<close> is
  \<open>None\<close>. A call returns its two results or panics.
\<close>

datatype 'e error = ModbusError modbus_error | TransportError 'e

datatype 'e result = Return "byte list" "'e error option" | Panic

subsection \<open>The transport and the effects of a transaction\<close>

text \<open>
  \<open>RTUContext\<close> embeds the serial port and the configuration. The port is an external
  collaborator: its \<open>Write\<close> and \<open>Read\<close> methods are any functions on a state \<open>'s\<close> of the
  transport. \<open>Write adu s\<close> yields the count and the error of the write; \<open>Read len s\<close>,
  called with a buffer of \<open>len\<close> bytes, yields the bytes it stores at the start of the
  buffer, the count \<open>n\<close> it reports (a Go \<open>int\<close>) and its error. The fields of
  \<open>RTUConfig\<close> that \<open>viaRTU\<close> reads follow; the slave address is \<open>CfgSlaveAddress\<close> here
  because \<open>RTUFrame\<close> has a field of the same name. \<open>Timeout\<close> is a \<open>time.Duration\<close>,
  an integer.
\<close>

record ('s, 'e) RTUContext =
  Write :: "byte list \<Rightarrow> 's \<Rightarrow> (int \<times> 'e option) \<times> 's"
  Read :: "nat \<Rightarrow> 's \<Rightarrow> (byte list \<times> int \<times> 'e option) \<times> 's"
  CfgSlaveAddress :: byte
  Timeout :: int
  Debug :: bool

text \<open>
  What a transaction does to the outside, in order: lines printed by \<open>log.Println\<close>
  (one constructor per format string of \<open>viaRTU\<close>), writes to the port, the sleep, reads
  from the port. The world threaded through \<open>viaRTU\<close> is the state of the transport and
  the effects so far.
\<close>

datatype 'e logline =
  Tx "byte list" | RTU_Write_Err 'e | RTU_Read_Err 'e
  | RTU_Response_Invalid | RTU_Response_Invalid_Bad_Checksum

datatype 'e effect = Println "'e logline" | PortWrite "byte list" | Sleep int | PortRead nat

type_synonym ('s, 'e) world = "'s \<times> 'e effect list"

definition println :: "'e logline \<Rightarrow> ('s, 'e) world \<Rightarrow> ('s, 'e) world" where
  "println l w = (fst w, snd w @ [Println l])"

definition sleep :: "int \<Rightarrow> ('s, 'e) world \<Rightarrow> ('s, 'e) world" where
  "sleep d w = (fst w, snd w @ [Sleep d])"

definition port_write ::
  "('s, 'e) RTUContext \<Rightarrow> byte list \<Rightarrow> ('s, 'e) world \<Rightarrow> (int \<times> 'e option) \<times> ('s, 'e) world" where
  "port_write rtu adu w =
     (let (r, s') = Write rtu adu (fst w) in (r, (s', snd w @ [PortWrite adu])))"

text \<open>
  \<open>response := make([]byte, len); n, rerr := rtu.Read(response)\<close>: the buffer starts as
  zeros and keeps its length whatever the port stores.
\<close>

definition port_read ::
  "('s, 'e) RTUContext \<Rightarrow> nat \<Rightarrow> ('s, 'e) world
     \<Rightarrow> (byte list \<times> int \<times> 'e option) \<times> ('s, 'e) world" where
  "port_read rtu len w =
     (let ((rx, n, rerr), s') = Read rtu len (fst w);
          response = take len rx @ replicate (len - length rx) 0
      in ((response, n, rerr), (s', snd w @ [PortRead len])))"

text \<open>
  Indexing and slicing with a Go \<open>int\<close>, which may be negative. The model's integer is
  unbounded: \<open>n - 2\<close> wraps in Go only for \<open>n\<close> below \<open>minInt + 2\<close>, to a value beyond
  every buffer, and the access panics there as it does here.
\<close>

definition index :: "byte list \<Rightarrow> int \<Rightarrow> byte option" where
  "index p i = (if 0 \<le> i \<and> i < int (length p) then Some (p ! nat i) else None)"

definition slice_to_int :: "byte list \<Rightarrow> int \<Rightarrow> byte list option" where
  "slice_to_int p n = (if 0 \<le> n \<and> n \<le> int (length p) then Some (take (nat n) p) else None)"

text \<open>
  \<open>a || b\<close> and \<open>a && b\<close> on operands that can panic: the right operand is evaluated
  only when the left one does not decide.
\<close>

definition orelse :: "bool option \<Rightarrow> bool option \<Rightarrow> bool option" where
  "orelse a b = (case a of None \<Rightarrow> None | Some x \<Rightarrow> if x then Some True else b)"

definition andalso :: "bool option \<Rightarrow> bool option \<Rightarrow> bool option" where
  "andalso a b = (case a of None \<Rightarrow> None | Some x \<Rightarrow> if x then b else Some False)"

definition neq :: "byte option \<Rightarrow> byte \<Rightarrow> bool option" where
  "neq a v = map_option (\<lambda>x. x \<noteq> v) a"

definition eq :: "byte option \<Rightarrow> byte \<Rightarrow> bool option" where
  "eq a v = map_option (\<lambda>x. x = v) a"

subsection \<open>viaRTU\<close>

definition viaRTU ::
  "pkg_consts \<Rightarrow> ('s, 'e) RTUContext \<Rightarrow> (byte \<Rightarrow> bool) \<Rightarrow> byte \<Rightarrow> uint16 \<Rightarrow> uint16 \<Rightarrow> byte list
     \<Rightarrow> ('s, 'e) world \<Rightarrow> 'e result \<times> ('s, 'e) world" where
  "viaRTU c rtu fnValidator functionCode startRegister numRegisters data w =
     (if fnValidator functionCode then
        (let frame = \<lparr>SlaveAddress = CfgSlaveAddress rtu, FunctionCode = functionCode,
                      StartRegister = startRegister, NumberOfRegisters = numRegisters,
                      Data = (if length data > 0 then data else [])\<rparr>
         in case GenerateRTUFrame c frame of
           None \<Rightarrow> (Panic, w)
         | Some adu \<Rightarrow>
            (let w = (if Debug rtu then println (Tx adu) w else w);
                 ((nw, werr), w) = port_write rtu adu w
             in case werr of
               Some e \<Rightarrow>
                 (let w = (if Debug rtu then println (RTU_Write_Err e) w else w)
                  in (Return [] (Some (TransportError e)), w))
             | None \<Rightarrow>
                 (let w = sleep (Timeout rtu) w;
                      ((response, n, rerr), w) = port_read rtu (RTU_FRAME_MAXSIZE c) w
                  in case rerr of
                    Some e \<Rightarrow>
                      (let w = (if Debug rtu then println (RTU_Read_Err e) w else w)
                       in (Return [] (Some (TransportError e)), w))
                  | None \<Rightarrow>
                      (case orelse (neq (index response 0) (SlaveAddress frame))
                                   (neq (index response 1) (FunctionCode frame)) of
                         None \<Rightarrow> (Panic, w)
                       | Some True \<Rightarrow>
                          (let w = (if Debug rtu then println RTU_Response_Invalid w else w)
                           in case andalso (eq (index response 0) (SlaveAddress frame))
                                     (eq (map_option (\<lambda>b. b AND 0x7f) (index response 1))
                                         (FunctionCode frame)) of
                             None \<Rightarrow> (Panic, w)
                           | Some True \<Rightarrow>
                              (case index response 2 of
                                 None \<Rightarrow> (Panic, w)
                               | Some code \<Rightarrow>
                                  if code = EXCEPTION_ILLEGAL_FUNCTION
                                  then (Return [] (Some (ModbusError IllegalFunction)), w)
                                  else if code = EXCEPTION_DATA_ADDRESS
                                  then (Return [] (Some (ModbusError IllegalDataAddress)), w)
                                  else if code = EXCEPTION_DATA_VALUE
                                  then (Return [] (Some (ModbusError IllegalDataValue)), w)
                                  else if code = EXCEPTION_SLAVE_DEVICE_FAILURE
                                  then (Return [] (Some (ModbusError SlaveDeviceFailure)), w)
                                  else (Return [] (Some (ModbusError Unspecified)), w))
                           | Some False \<Rightarrow> (Return [] (Some (ModbusError Unspecified)), w))
                       | Some False \<Rightarrow>
                          (case slice_to_int response (n - 2) of
                             None \<Rightarrow> (Panic, w)
                           | Some body \<Rightarrow>
                              (let responseCrc = crc body
                               in case orelse
                                    (neq (index response (n - 2)) (ucast (responseCrc AND 0xff)))
                                    (neq (index response (n - 1)) (ucast (drop_bit 8 responseCrc))) of
                                 None \<Rightarrow> (Panic, w)
                               | Some True \<Rightarrow>
                                  (let w = (if Debug rtu
                                            then println RTU_Response_Invalid_Bad_Checksum w
                                            else w)
                                   in case slice_to_int response n of
                                     None \<Rightarrow> (Panic, w)
                                   | Some received \<Rightarrow>
                                       (Return received (Some (ModbusError BadChecksum)), w))
                               | Some False \<Rightarrow>
                                  (case slice_to_int response n of
                                     None \<Rightarrow> (Panic, w)
                                   | Some received \<Rightarrow> (Return received None, w))))))))
      else (Return [] (Some (ModbusError IllegalFunction)), w))"

section \<open>Definitions used to state the properties\<close>

text \<open>
  The checksum as the specification words it: the accumulator starts at 0xFFFF; each
  byte is XORed into the low byte of the accumulator (the high byte is kept), followed
  by eight rounds, each of which shifts right by one bit and XORs with 0xA001 when the
  bit shifted out was set.
\<close>

definition crc_round_spec :: "uint16 \<Rightarrow> uint16" where
  "crc_round_spec acc = (if bit acc 0 then drop_bit 1 acc XOR 0xA001 else drop_bit 1 acc)"

definition xor_low_byte :: "uint16 \<Rightarrow> byte \<Rightarrow> uint16" where
  "xor_low_byte acc b = push_bit 8 (drop_bit 8 acc) OR ucast ((ucast acc :: byte) XOR b)"

definition crc_spec :: "byte list \<Rightarrow> uint16" where
  "crc_spec bs = foldl (\<lambda>acc b. (crc_round_spec ^^ 8) (xor_low_byte acc b)) 0xFFFF bs"

text \<open>
  A 16-bit field on the wire, big-endian: the most significant byte first. The two
  checksum bytes of a body: the least significant byte first.
\<close>

definition be16 :: "uint16 \<Rightarrow> byte list" where
  "be16 x = [of_nat (unat x div 256), of_nat (unat x mod 256)]"

definition crc_bytes :: "byte list \<Rightarrow> byte list" where
  "crc_bytes body = [of_nat (unat (crc body) mod 256), of_nat (unat (crc body) div 256)]"

text \<open>
  The bytes of a frame before its payload, and the frames whose encoding has room in
  the packet buffer: a frame with no payload is built in a buffer of 9 bytes, which
  holds every header and the checksum.
\<close>

definition header :: "pkg_consts \<Rightarrow> RTUFrame \<Rightarrow> byte list" where
  "header c f =
     [SlaveAddress f, FunctionCode f] @ be16 (StartRegister f)
     @ (if fst (layout c (FunctionCode f)) then be16 (NumberOfRegisters f) else [])
     @ (if snd (layout c (FunctionCode f)) then [of_nat (length (Data f))] else [])"

definition fits :: "pkg_consts \<Rightarrow> RTUFrame \<Rightarrow> bool" where
  "fits c f =
     (Data f = [] \<or> length (header c f) + length (Data f) + 2 \<le> RTU_FRAME_MAXSIZE c)"

text \<open>
  What a caller and the transport can observe of a transaction, the printed log lines
  left out: the returned values, the final state of the transport and the other
  effects in order.
\<close>

definition is_log :: "'e effect \<Rightarrow> bool" where
  "is_log e = (case e of Println l \<Rightarrow> True | _ \<Rightarrow> False)"

definition observable ::
  "'e result \<times> ('s, 'e) world \<Rightarrow> 'e result \<times> 's \<times> 'e effect list" where
  "observable r = (fst r, fst (snd r), filter (\<lambda>e. \<not> is_log e) (snd (snd r)))"

text \<open>
  A transport for running the model: every write succeeds and every read stores the
  canned reply \<open>reply\<close> in the buffer and reports its length. The context addresses
  slave 0x11.
\<close>

definition mock_rtu :: "byte list \<Rightarrow> bool \<Rightarrow> (unit, unit) RTUContext" where
  "mock_rtu reply dbg =
     \<lparr>Write = (\<lambda>adu s. ((int (length adu), None), s)),
      Read = (\<lambda>len s. ((take len reply, int (length (take len reply)), None), s)),
      CfgSlaveAddress = 0x11, Timeout = 0, Debug = dbg\<rparr>"

text \<open>
  \<open>RTU_FRAME_MAXSIZE\<close> is a parameter: the same constants with a packet buffer of 512
  bytes, in which a payload of more than 255 bytes has room.
\<close>

definition wide_consts :: pkg_consts where
  "wide_consts = modbus_consts\<lparr>RTU_FRAME_MAXSIZE := 512\<rparr>"

section \<open>The checksum\<close>

declare crc_bits.simps [simp del] crc_loop.simps [simp del] copy_data.simps [simp del]

lemma crc_step_spec: "crc_step = crc_round_spec"
proof
  fix acc
  show "crc_step acc = crc_round_spec acc"
    by (auto simp: crc_step_def crc_round_spec_def word_gt_0 and_one_eq bit_0 mod_2_eq_odd)
qed

lemma xor_low_byte_eq: "xor_low_byte acc b = acc XOR ucast b"
proof (rule bit_word_eqI)
  fix n assume n: "n < LENGTH(16)"
  have b: "bit b n \<Longrightarrow> n < 8"
    using bit_imp_le_length [of b n] by simp
  have "8 \<le> n \<Longrightarrow> 8 + (n - 8) = n" by simp
  then show "bit (xor_low_byte acc b) n = bit (acc XOR ucast b) n"
    using b n unfolding xor_low_byte_def
    by (cases "n < 8") (auto simp: bit_simps)
qed

lemma crc_bits_funpow: "crc_bits j c = (crc_step ^^ (8 - j)) c"
proof (induction j c rule: crc_bits.induct)
  case (1 j c)
  show ?case
  proof (cases "j < 8")
    case True
    then have "8 - j = Suc (8 - (j + 1))" by simp
    with 1 True show ?thesis
      by (simp add: funpow_swap1 crc_bits.simps [of j])
  next
    case False
    then show ?thesis by (simp add: crc_bits.simps)
  qed
qed

lemma crc_loop_foldl:
  "crc_loop data i c = foldl (\<lambda>acc b. (crc_step ^^ 8) (acc XOR ucast b)) c (drop i data)"
proof (induction data i c rule: crc_loop.induct)
  case (1 data i c)
  show ?case
  proof (cases "i < length data")
    case True
    then have "drop i data = data ! i # drop (i + 1) data"
      by (simp add: Cons_nth_drop_Suc)
    with 1 True show ?thesis
      by (simp add: crc_bits_funpow crc_loop.simps [of data i])
  next
    case False
    then show ?thesis by (simp add: crc_loop.simps)
  qed
qed

text \<open>
  C2: \<open>crc\<close> is a function of the byte sequence alone, equal to the checksum as the
  specification describes it, and the checksum of the empty sequence is 0xFFFF.
\<close>

theorem crc_refines_spec: "crc data = crc_spec data \<and> crc [] = 0xFFFF"
  by (simp add: crc_def crc_spec_def crc_loop_foldl crc_step_spec xor_low_byte_eq)

section \<open>The frame codec\<close>

subsection \<open>Bytes of a 16-bit value\<close>

lemma hi_byte: "(ucast (drop_bit 8 (x::uint16)) :: byte) = of_nat (unat x div 256)"
proof -
  have "(ucast (drop_bit 8 x) :: byte) = of_nat (unat (drop_bit 8 x))"
    by simp
  also have "unat (drop_bit 8 x) = unat x div 256"
    by (simp add: unat_div drop_bit_eq_div)
  finally show ?thesis .
qed

lemma lo_byte: "(ucast ((x::uint16) AND 0xff) :: byte) = of_nat (unat x mod 256)"
proof -
  have m: "x AND 0xff = take_bit 8 x"
    by (simp add: take_bit_eq_mask mask_eq_decr_exp)
  have "(ucast (x AND 0xff) :: byte) = of_nat (unat (x AND 0xff))"
    by simp
  also have "unat (x AND 0xff) = unat x mod 256"
    unfolding m by (simp add: take_bit_eq_mod unat_mod)
  finally show ?thesis .
qed

lemma len_byte: "n \<le> 255 \<Longrightarrow> unat (of_nat n :: byte) = n"
  by (simp add: unat_of_nat)

lemma len_byte_mod: "unat (of_nat n :: byte) = n mod 256"
  by (simp add: unat_of_nat)

subsection \<open>Writes into the packet buffer\<close>

lemma put_SomeD: "put p i v = Some p' \<Longrightarrow> length p' = length p \<and> i < length p"
  by (auto simp: put_def split: if_splits)

lemma slice_to_SomeD: "slice_to p n = Some q \<Longrightarrow> n \<le> length p \<and> q = take n p"
  by (auto simp: slice_to_def split: if_splits)

lemma copy_data_length: "copy_data p b data i = Some p' \<Longrightarrow> length p' = length p"
proof (induction p b data i rule: copy_data.induct)
  case (1 packet bytesUsed data i)
  show ?case
  proof (cases "i < length data")
    case True
    with 1(2) obtain q where q: "put packet (bytesUsed + i) (data ! i) = Some q"
      and r: "copy_data q bytesUsed data (i + 1) = Some p'"
      by (simp add: copy_data.simps [of packet] split: option.splits)
    from 1(1) [OF True q r] put_SomeD [OF q] show ?thesis by simp
  next
    case False
    with 1(2) show ?thesis by (simp add: copy_data.simps)
  qed
qed

text \<open>
  The copy loop, started at index \<open>i\<close> with the bytes before the write position in
  \<open>pre\<close>: it overwrites the start of \<open>rest\<close> with the remaining payload.
\<close>

lemma copy_data_from:
  "length pre = b + i \<Longrightarrow> i \<le> length data \<Longrightarrow> length data - i \<le> length rest \<Longrightarrow>
   copy_data (pre @ rest) b data i = Some (pre @ drop i data @ drop (length data - i) rest)"
proof (induction "length data - i" arbitrary: pre i rest)
  case 0
  then show ?case by (simp add: copy_data.simps)
next
  case (Suc j)
  then have lt: "i < length data" and j: "j = length data - (i + 1)" by simp_all
  from Suc.hyps(2) Suc.prems(3) obtain x rest' where rest: "rest = x # rest'"
    by (cases rest) simp_all
  have p: "put (pre @ rest) (b + i) (data ! i) = Some ((pre @ [data ! i]) @ rest')"
    using Suc.prems(1) by (simp add: put_def rest list_update_append)
  have d: "drop i data = data ! i # drop (i + 1) data"
    using lt by (simp add: Cons_nth_drop_Suc)
  have dr: "drop (length data - i) rest = drop (length data - (i + 1)) rest'"
    using lt by (simp add: rest drop_Cons')
  have r: "copy_data ((pre @ [data ! i]) @ rest') b data (i + 1)
      = Some ((pre @ [data ! i]) @ drop (i + 1) data @ drop (length data - (i + 1)) rest')"
    using Suc.hyps(1) [OF j, of "pre @ [data ! i]" rest'] Suc.prems lt
    by (simp add: rest)
  have "copy_data (pre @ rest) b data i
      = (case put (pre @ rest) (b + i) (data ! i) of
           None \<Rightarrow> None
         | Some packet' \<Rightarrow> copy_data packet' b data (i + 1))"
    using lt by (subst copy_data.simps) simp
  also have "\<dots> = Some ((pre @ [data ! i]) @ drop (i + 1) data @ drop (length data - (i + 1)) rest')"
    by (simp only: p option.case r)
  finally show ?case
    by (simp add: d dr)
qed

text \<open>Sealing a body of \<open>n\<close> bytes that has two more bytes of buffer behind it.\<close>

lemma seal:
  assumes "length xs = n" and "2 \<le> length rest"
  shows "slice_to (xs @ rest) n \<bind>
         (\<lambda>body. put (xs @ rest) n (ucast (crc body AND 0xff)) \<bind>
           (\<lambda>packet. put packet (n + 1) (ucast (drop_bit 8 (crc body))) \<bind>
             (\<lambda>packet. slice_to packet (n + 2))))
         = Some (xs @ crc_bytes xs)"
proof -
  from assms(2) obtain x y r where "rest = x # y # r"
    by (cases rest; cases "tl rest") simp_all
  with assms(1) show ?thesis
    by (simp add: slice_to_def put_def crc_bytes_def list_update_append hi_byte lo_byte)
qed

text \<open>
  The part of \<open>GenerateRTUFrame\<close> after the header, on a buffer \<open>p\<close> whose first \<open>b\<close>
  bytes are the header \<open>pre\<close>.
\<close>

lemma after_header:
  assumes "take b p = pre" and "length pre = b" and "b + length data + 2 \<le> length p"
  shows "copy_data p b data 0 \<bind>
         (\<lambda>packet. slice_to packet (b + length data) \<bind>
           (\<lambda>body. put packet (b + length data) (ucast (crc body AND 0xff)) \<bind>
             (\<lambda>packet. put packet (b + length data + 1) (ucast (drop_bit 8 (crc body))) \<bind>
               (\<lambda>packet. slice_to packet (b + length data + 2)))))
         = Some (pre @ data @ crc_bytes (pre @ data))"
proof -
  have p: "p = pre @ drop b p"
    using assms(1) append_take_drop_id [of b p] by simp
  have "copy_data (pre @ drop b p) b data 0
          = Some ((pre @ data) @ drop (length data) (drop b p))"
    using copy_data_from [of pre b 0 data "drop b p"] assms by simp
  then have c: "copy_data p b data 0 = Some ((pre @ data) @ drop (length data) (drop b p))"
    using p by simp
  have "length (pre @ data) = b + length data"
    using assms by simp
  moreover have "2 \<le> length (drop (length data) (drop b p))"
    using assms by simp
  ultimately show ?thesis
    unfolding c Option.bind.simps
    using seal [of "pre @ data" "b + length data" "drop (length data) (drop b p)"]
    by simp
qed

lemma take_header4:
  "4 \<le> N \<Longrightarrow> take 4 ((replicate N x)[0 := a, 1 := b, 2 := c, 3 := d]) = [a, b, c, d]"
  by (auto simp: le_iff_add numeral_eq_Suc)

lemma take_header6:
  "6 \<le> N \<Longrightarrow> take (4 + 2) ((replicate N x)[0 := a, 1 := b, 2 := c, 3 := d, 4 := e, 4 + 1 := g])
     = [a, b, c, d, e, g]"
  by (auto simp: le_iff_add numeral_eq_Suc)

lemma take_header7:
  "7 \<le> N \<Longrightarrow>
   take (4 + 2 + 1) ((replicate N x)[0 := a, 1 := b, 2 := c, 3 := d, 4 := e, 4 + 1 := g, 4 + 2 := h])
     = [a, b, c, d, e, g, h]"
  by (auto simp: le_iff_add numeral_eq_Suc)

subsection \<open>The encoder in closed form\<close>

lemma GenerateRTUFrame_single:
  assumes L: "layout c (FunctionCode f) = (False, False)"
    and F: "fits c f"
  shows "GenerateRTUFrame c f = Some (header c f @ Data f @ crc_bytes (header c f @ Data f))"
proof -
  let ?N = "if 0 < length (Data f) then RTU_FRAME_MAXSIZE c else 9"
  let ?P0 = "replicate ?N (0::byte)"
  let ?P1 = "?P0[0 := SlaveAddress f]"
  let ?P2 = "?P1[1 := FunctionCode f]"
  let ?P3 = "?P2[2 := ucast (drop_bit 8 (StartRegister f))]"
  let ?P4 = "?P3[3 := ucast (StartRegister f AND 0xff)]"
  have H: "length (header c f) = 4"
    by (simp add: header_def be16_def L)
  have N: "4 + length (Data f) + 2 \<le> ?N"
    using F H by (auto simp: fits_def)
  have e: "put ?P0 0 (SlaveAddress f) = Some ?P1"
    "put ?P1 1 (FunctionCode f) = Some ?P2"
    "put ?P2 2 (ucast (drop_bit 8 (StartRegister f))) = Some ?P3"
    "put ?P3 3 (ucast (StartRegister f AND 0xff)) = Some ?P4"
    using N by (simp_all add: put_def)
  have t: "take 4 ?P4 = header c f"
    using N by (subst take_header4) (simp_all add: header_def be16_def L hi_byte lo_byte)
  show ?thesis
    unfolding GenerateRTUFrame_def Let_def L prod.case if_False
    apply (simp only: e Option.bind.simps prod.case)
    apply (rule after_header [OF t])
    using N H by simp_all
qed

lemma GenerateRTUFrame_default:
  assumes L: "layout c (FunctionCode f) = (True, False)"
    and F: "fits c f"
  shows "GenerateRTUFrame c f = Some (header c f @ Data f @ crc_bytes (header c f @ Data f))"
proof -
  let ?N = "if 0 < length (Data f) then RTU_FRAME_MAXSIZE c else 9"
  let ?P0 = "replicate ?N (0::byte)"
  let ?P1 = "?P0[0 := SlaveAddress f]"
  let ?P2 = "?P1[1 := FunctionCode f]"
  let ?P3 = "?P2[2 := ucast (drop_bit 8 (StartRegister f))]"
  let ?P4 = "?P3[3 := ucast (StartRegister f AND 0xff)]"
  let ?P5 = "?P4[4 := ucast (drop_bit 8 (NumberOfRegisters f))]"
  let ?P6 = "?P5[4 + 1 := ucast (NumberOfRegisters f AND 0xff)]"
  have H: "length (header c f) = 6"
    by (simp add: header_def be16_def L)
  have N: "6 + length (Data f) + 2 \<le> ?N"
    using F H by (auto simp: fits_def)
  have e: "put ?P0 0 (SlaveAddress f) = Some ?P1"
    "put ?P1 1 (FunctionCode f) = Some ?P2"
    "put ?P2 2 (ucast (drop_bit 8 (StartRegister f))) = Some ?P3"
    "put ?P3 3 (ucast (StartRegister f AND 0xff)) = Some ?P4"
    "put ?P4 4 (ucast (drop_bit 8 (NumberOfRegisters f))) = Some ?P5"
    "put ?P5 (4 + 1) (ucast (NumberOfRegisters f AND 0xff)) = Some ?P6"
    using N by (simp_all add: put_def)
  have t: "take (4 + 2) ?P6 = header c f"
    using N by (subst take_header6) (simp_all add: header_def be16_def L hi_byte lo_byte)
  show ?thesis
    unfolding GenerateRTUFrame_def Let_def L prod.case if_True if_False
    apply (simp only: e Option.bind.simps prod.case)
    apply (rule after_header [OF t])
    using N H by simp_all
qed

lemma GenerateRTUFrame_multi:
  assumes L: "layout c (FunctionCode f) = (True, True)"
    and F: "fits c f"
  shows "GenerateRTUFrame c f = Some (header c f @ Data f @ crc_bytes (header c f @ Data f))"
proof -
  let ?N = "if 0 < length (Data f) then RTU_FRAME_MAXSIZE c else 9"
  let ?P0 = "replicate ?N (0::byte)"
  let ?P1 = "?P0[0 := SlaveAddress f]"
  let ?P2 = "?P1[1 := FunctionCode f]"
  let ?P3 = "?P2[2 := ucast (drop_bit 8 (StartRegister f))]"
  let ?P4 = "?P3[3 := ucast (StartRegister f AND 0xff)]"
  let ?P5 = "?P4[4 := ucast (drop_bit 8 (NumberOfRegisters f))]"
  let ?P6 = "?P5[4 + 1 := ucast (NumberOfRegisters f AND 0xff)]"
  let ?P7 = "?P6[4 + 2 := of_nat (length (Data f))]"
  have H: "length (header c f) = 7"
    by (simp add: header_def be16_def L)
  have N: "7 + length (Data f) + 2 \<le> ?N"
    using F H by (auto simp: fits_def)
  have e: "put ?P0 0 (SlaveAddress f) = Some ?P1"
    "put ?P1 1 (FunctionCode f) = Some ?P2"
    "put ?P2 2 (ucast (drop_bit 8 (StartRegister f))) = Some ?P3"
    "put ?P3 3 (ucast (StartRegister f AND 0xff)) = Some ?P4"
    "put ?P4 4 (ucast (drop_bit 8 (NumberOfRegisters f))) = Some ?P5"
    "put ?P5 (4 + 1) (ucast (NumberOfRegisters f AND 0xff)) = Some ?P6"
    "put ?P6 (4 + 2) (of_nat (length (Data f))) = Some ?P7"
    using N by (simp_all add: put_def)
  have t: "take (4 + 2 + 1) ?P7 = header c f"
    using N by (subst take_header7) (simp_all add: header_def be16_def L hi_byte lo_byte)
  show ?thesis
    unfolding GenerateRTUFrame_def Let_def L prod.case if_True
    apply (simp only: e Option.bind.simps prod.case)
    apply (rule after_header [OF t])
    using N H by simp_all
qed

lemma layout_cases:
  "layout c fc = (False, False) \<or> layout c fc = (True, True) \<or> layout c fc = (True, False)"
  by (simp add: layout_def)

lemma GenerateRTUFrame_fits:
  "fits c f \<Longrightarrow>
   GenerateRTUFrame c f = Some (header c f @ Data f @ crc_bytes (header c f @ Data f))"
  using layout_cases [of c "FunctionCode f"]
    GenerateRTUFrame_single GenerateRTUFrame_multi GenerateRTUFrame_default
  by blast

text \<open>
  The encoder returns only when the last write, of the second checksum byte, is inside
  the buffer.
\<close>

lemma GenerateRTUFrame_SomeD:
  assumes "GenerateRTUFrame c f = Some adu"
  shows "fits c f"
  using assms unfolding GenerateRTUFrame_def Let_def
  by (auto simp: fits_def header_def be16_def layout_def bind_eq_Some_conv
           split: if_splits prod.splits dest!: put_SomeD slice_to_SomeD copy_data_length)

lemma GenerateRTUFrame_eq:
  "GenerateRTUFrame c f =
     (if fits c f then Some (header c f @ Data f @ crc_bytes (header c f @ Data f)) else None)"
  using GenerateRTUFrame_fits [of c f] GenerateRTUFrame_SomeD [of c f]
  by (cases "GenerateRTUFrame c f") auto

lemma GenerateRTUFrame_overflow:
  "Data f \<noteq> [] \<Longrightarrow> RTU_FRAME_MAXSIZE c < length (header c f) + length (Data f) + 2 \<Longrightarrow>
   GenerateRTUFrame c f = None"
  by (simp add: GenerateRTUFrame_eq fits_def)

lemma crc_read_holding_example: "crc [0x11, 0x03, 0x00, 0x6B, 0x00, 0x03] = 0x8776"
  by code_simp

subsection \<open>Properties of the encoder\<close>

lemma header_length: "length (header c f) \<le> 7"
  by (simp add: header_def be16_def)

lemma GenerateRTUFrame_room:
  assumes "Data f = [] \<or> length (Data f) + 9 \<le> RTU_FRAME_MAXSIZE c"
  shows "\<exists>adu. GenerateRTUFrame c f = Some adu"
proof -
  have "fits c f"
    using assms header_length [of c f] by (auto simp: fits_def)
  then show ?thesis
    by (simp add: GenerateRTUFrame_fits)
qed

lemma layout_of_returned:
  assumes "GenerateRTUFrame c f = Some adu"
  shows
    "(FunctionCode f = FUNCTION_WRITE_SINGLE_COIL c
        \<or> FunctionCode f = FUNCTION_WRITE_SINGLE_REGISTER c \<longrightarrow>
       (let body = [SlaveAddress f, FunctionCode f] @ be16 (StartRegister f) @ Data f
        in adu = body @ crc_bytes body))
     \<and> (FunctionCode f = FUNCTION_WRITE_MULTIPLE_REGISTERS c
        \<and> FunctionCode f \<noteq> FUNCTION_WRITE_SINGLE_COIL c
        \<and> FunctionCode f \<noteq> FUNCTION_WRITE_SINGLE_REGISTER c \<longrightarrow>
       (let body = [SlaveAddress f, FunctionCode f] @ be16 (StartRegister f)
                     @ be16 (NumberOfRegisters f) @ [of_nat (length (Data f))] @ Data f
        in adu = body @ crc_bytes body)
       \<and> unat (adu ! 6) = length (Data f) mod 256
       \<and> (length (Data f) \<le> 255 \<longrightarrow> unat (adu ! 6) = length (Data f)))
     \<and> (FunctionCode f \<noteq> FUNCTION_WRITE_SINGLE_COIL c
        \<and> FunctionCode f \<noteq> FUNCTION_WRITE_SINGLE_REGISTER c
        \<and> FunctionCode f \<noteq> FUNCTION_WRITE_MULTIPLE_REGISTERS c \<longrightarrow>
       (let body = [SlaveAddress f, FunctionCode f] @ be16 (StartRegister f)
                     @ be16 (NumberOfRegisters f) @ Data f
        in adu = body @ crc_bytes body))"
proof -
  have adu: "adu = header c f @ Data f @ crc_bytes (header c f @ Data f)"
    using assms GenerateRTUFrame_SomeD [OF assms] by (simp add: GenerateRTUFrame_fits)
  have single: "header c f = [SlaveAddress f, FunctionCode f] @ be16 (StartRegister f)"
    if "FunctionCode f = FUNCTION_WRITE_SINGLE_COIL c
          \<or> FunctionCode f = FUNCTION_WRITE_SINGLE_REGISTER c"
    using that by (auto simp: header_def layout_def)
  have multi: "header c f = [SlaveAddress f, FunctionCode f] @ be16 (StartRegister f)
                 @ be16 (NumberOfRegisters f) @ [of_nat (length (Data f))]"
    if "FunctionCode f = FUNCTION_WRITE_MULTIPLE_REGISTERS c"
      and "FunctionCode f \<noteq> FUNCTION_WRITE_SINGLE_COIL c"
      and "FunctionCode f \<noteq> FUNCTION_WRITE_SINGLE_REGISTER c"
    using that by (simp add: header_def layout_def)
  have other: "header c f = [SlaveAddress f, FunctionCode f] @ be16 (StartRegister f)
                 @ be16 (NumberOfRegisters f)"
    if "FunctionCode f \<noteq> FUNCTION_WRITE_SINGLE_COIL c"
      and "FunctionCode f \<noteq> FUNCTION_WRITE_SINGLE_REGISTER c"
      and "FunctionCode f \<noteq> FUNCTION_WRITE_MULTIPLE_REGISTERS c"
    using that by (simp add: header_def layout_def)
  have "adu = ([SlaveAddress f, FunctionCode f] @ be16 (StartRegister f) @ Data f)
            @ crc_bytes ([SlaveAddress f, FunctionCode f] @ be16 (StartRegister f) @ Data f)"
    if "FunctionCode f = FUNCTION_WRITE_SINGLE_COIL c
          \<or> FunctionCode f = FUNCTION_WRITE_SINGLE_REGISTER c"
    unfolding adu single [OF that] by simp
  moreover have "adu = ([SlaveAddress f, FunctionCode f] @ be16 (StartRegister f)
              @ be16 (NumberOfRegisters f) @ [of_nat (length (Data f))] @ Data f)
            @ crc_bytes ([SlaveAddress f, FunctionCode f] @ be16 (StartRegister f)
              @ be16 (NumberOfRegisters f) @ [of_nat (length (Data f))] @ Data f)
          \<and> unat (adu ! 6) = length (Data f) mod 256
          \<and> (length (Data f) \<le> 255 \<longrightarrow> unat (adu ! 6) = length (Data f))"
    if "FunctionCode f = FUNCTION_WRITE_MULTIPLE_REGISTERS c"
      and "FunctionCode f \<noteq> FUNCTION_WRITE_SINGLE_COIL c"
      and "FunctionCode f \<noteq> FUNCTION_WRITE_SINGLE_REGISTER c"
    unfolding adu multi [OF that] by (simp add: be16_def len_byte len_byte_mod)
  moreover have "adu = ([SlaveAddress f, FunctionCode f] @ be16 (StartRegister f)
              @ be16 (NumberOfRegisters f) @ Data f)
            @ crc_bytes ([SlaveAddress f, FunctionCode f] @ be16 (StartRegister f)
              @ be16 (NumberOfRegisters f) @ Data f)"
    if "FunctionCode f \<noteq> FUNCTION_WRITE_SINGLE_COIL c"
      and "FunctionCode f \<noteq> FUNCTION_WRITE_SINGLE_REGISTER c"
      and "FunctionCode f \<noteq> FUNCTION_WRITE_MULTIPLE_REGISTERS c"
    unfolding adu other [OF that] by simp
  ultimately show ?thesis
    unfolding Let_def by blast
qed

text \<open>
  C1, as the code has it: the layout of an encoded frame is selected by the function
  code. The encoder
  returns an ADU for every frame with no payload and for every frame whose payload
  leaves 9 bytes of the packet buffer free. In every ADU it returns: for the
  single-coil and single-register write codes the payload follows the start register
  and there is no count field. For the multi-register write code (when it is not also
  one of the former two, which the \<open>switch\<close> tests first) the frame has the count field
  and one length byte before the payload; the length byte is \<open>byte(dataLen)\<close>, the
  payload byte count modulo 256, which is the count itself up to 255 bytes of payload.
  Every other
  code gives address, function, start, count, payload. The 16-bit fields are
  big-endian, and the two checksum bytes of everything before them end the frame.
\<close>

theorem GenerateRTUFrame_layout:
  "(Data f = [] \<or> length (Data f) + 9 \<le> RTU_FRAME_MAXSIZE c \<longrightarrow>
      (\<exists>adu. GenerateRTUFrame c f = Some adu))
   \<and> (\<forall>adu. GenerateRTUFrame c f = Some adu \<longrightarrow>
     (FunctionCode f = FUNCTION_WRITE_SINGLE_COIL c
         \<or> FunctionCode f = FUNCTION_WRITE_SINGLE_REGISTER c \<longrightarrow>
        (let body = [SlaveAddress f, FunctionCode f] @ be16 (StartRegister f) @ Data f
         in adu = body @ crc_bytes body))
      \<and> (FunctionCode f = FUNCTION_WRITE_MULTIPLE_REGISTERS c
         \<and> FunctionCode f \<noteq> FUNCTION_WRITE_SINGLE_COIL c
         \<and> FunctionCode f \<noteq> FUNCTION_WRITE_SINGLE_REGISTER c \<longrightarrow>
        (let body = [SlaveAddress f, FunctionCode f] @ be16 (StartRegister f)
                      @ be16 (NumberOfRegisters f) @ [of_nat (length (Data f))] @ Data f
         in adu = body @ crc_bytes body)
        \<and> unat (adu ! 6) = length (Data f) mod 256
        \<and> (length (Data f) \<le> 255 \<longrightarrow> unat (adu ! 6) = length (Data f)))
      \<and> (FunctionCode f \<noteq> FUNCTION_WRITE_SINGLE_COIL c
         \<and> FunctionCode f \<noteq> FUNCTION_WRITE_SINGLE_REGISTER c
         \<and> FunctionCode f \<noteq> FUNCTION_WRITE_MULTIPLE_REGISTERS c \<longrightarrow>
        (let body = [SlaveAddress f, FunctionCode f] @ be16 (StartRegister f)
                      @ be16 (NumberOfRegisters f) @ Data f
         in adu = body @ crc_bytes body)))"
  using GenerateRTUFrame_room [of f c] layout_of_returned [of c f] by blast

theorem GenerateRTUFrame_layout_witness:
  "GenerateRTUFrame modbus_consts
     \<lparr>SlaveAddress = 0x11, FunctionCode = 0x06, StartRegister = 0x006B,
      NumberOfRegisters = 3, Data = [0x01, 0x02]\<rparr>
     = Some [0x11, 0x06, 0x00, 0x6B, 0x01, 0x02, 0x7A, 0xD7]
   \<and> GenerateRTUFrame modbus_consts
     \<lparr>SlaveAddress = 0x11, FunctionCode = 0x10, StartRegister = 0x006B,
      NumberOfRegisters = 3, Data = [1, 2, 3, 4, 5, 6]\<rparr>
     = Some [0x11, 0x10, 0x00, 0x6B, 0x00, 0x03, 0x06, 1, 2, 3, 4, 5, 6, 0x10, 0x8D]
   \<and> GenerateRTUFrame modbus_consts
     \<lparr>SlaveAddress = 0x11, FunctionCode = 0x03, StartRegister = 0x006B,
      NumberOfRegisters = 3, Data = []\<rparr>
     = Some [0x11, 0x03, 0x00, 0x6B, 0x00, 0x03, 0x76, 0x87]"
proof -
  let ?f1 = "\<lparr>SlaveAddress = 0x11, FunctionCode = 0x06, StartRegister = 0x006B,
      NumberOfRegisters = 3, Data = [0x01, 0x02]\<rparr>"
  let ?f2 = "\<lparr>SlaveAddress = 0x11, FunctionCode = 0x10, StartRegister = 0x006B,
      NumberOfRegisters = 3, Data = [1, 2, 3, 4, 5, 6]\<rparr>"
  let ?f3 = "\<lparr>SlaveAddress = 0x11, FunctionCode = 0x03, StartRegister = 0x006B,
      NumberOfRegisters = 3, Data = []\<rparr>"
  have c1: "crc [0x11, 0x06, 0x00, 0x6B, 0x01, 0x02] = 0xD77A"
    by code_simp
  have c2: "crc [0x11, 0x10, 0x00, 0x6B, 0x00, 0x03, 0x06, 1, 2, 3, 4, 5, 6] = 0x8D10"
    by code_simp
  have "fits modbus_consts ?f1" "fits modbus_consts ?f2" "fits modbus_consts ?f3"
    by (simp_all add: fits_def header_def be16_def layout_def modbus_consts_def)
  then obtain a1 a2 a3 where g:
    "GenerateRTUFrame modbus_consts ?f1 = Some a1"
    "GenerateRTUFrame modbus_consts ?f2 = Some a2"
    "GenerateRTUFrame modbus_consts ?f3 = Some a3"
    by (simp add: GenerateRTUFrame_fits)
  have "a1 = [0x11, 0x06, 0x00, 0x6B, 0x01, 0x02, 0x7A, 0xD7]"
    using GenerateRTUFrame_layout [where f = "?f1" and c = modbus_consts] g(1)
    by (simp add: modbus_consts_def be16_def crc_bytes_def c1)
  moreover have "a2 = [0x11, 0x10, 0x00, 0x6B, 0x00, 0x03, 0x06, 1, 2, 3, 4, 5, 6, 0x10, 0x8D]"
    using GenerateRTUFrame_layout [where f = "?f2" and c = modbus_consts] g(2)
    by (simp add: modbus_consts_def be16_def crc_bytes_def c2)
  moreover have "a3 = [0x11, 0x03, 0x00, 0x6B, 0x00, 0x03, 0x76, 0x87]"
    using GenerateRTUFrame_layout [where f = "?f3" and c = modbus_consts] g(3)
    by (simp add: modbus_consts_def be16_def crc_bytes_def crc_read_holding_example)
  ultimately show ?thesis
    using g by simp
qed

text \<open>
  The length byte is not the payload byte count on every frame: with a packet buffer of
  512 bytes, a multi-register write with 300 payload bytes is encoded, and its length
  byte is 44, which is 300 modulo 256.
\<close>

theorem GenerateRTUFrame_length_byte_counterexample:
  "GenerateRTUFrame wide_consts
     \<lparr>SlaveAddress = 0x11, FunctionCode = 0x10, StartRegister = 0x0000,
      NumberOfRegisters = 150, Data = replicate 300 0\<rparr> \<noteq> None
   \<and> unat (the (GenerateRTUFrame wide_consts
       \<lparr>SlaveAddress = 0x11, FunctionCode = 0x10, StartRegister = 0x0000,
        NumberOfRegisters = 150, Data = replicate 300 0\<rparr>) ! 6) = 44
   \<and> length (Data \<lparr>SlaveAddress = 0x11, FunctionCode = 0x10, StartRegister = 0x0000,
        NumberOfRegisters = 150, Data = replicate 300 (0 :: byte)\<rparr>) = 300"
proof -
  let ?f = "\<lparr>SlaveAddress = 0x11, FunctionCode = 0x10, StartRegister = 0x0000,
      NumberOfRegisters = 150, Data = replicate 300 (0 :: byte)\<rparr>"
  have l: "layout wide_consts 0x10 = (True, True)"
    by (simp add: layout_def wide_consts_def modbus_consts_def)
  have h: "header wide_consts ?f = [0x11, 0x10] @ be16 0 @ be16 150 @ [of_nat 300]"
    by (simp add: header_def l)
  have m: "RTU_FRAME_MAXSIZE wide_consts = 512"
    by (simp add: wide_consts_def)
  have "length (header wide_consts ?f) = 7"
    unfolding h by (simp add: be16_def)
  then have "fits wide_consts ?f"
    unfolding fits_def m by simp
  then have g: "GenerateRTUFrame wide_consts ?f
      = Some (header wide_consts ?f @ Data ?f @ crc_bytes (header wide_consts ?f @ Data ?f))"
    by (rule GenerateRTUFrame_fits)
  have "(header wide_consts ?f @ Data ?f @ crc_bytes (header wide_consts ?f @ Data ?f)) ! 6
      = (of_nat 300 :: byte)"
    unfolding h by (simp add: be16_def)
  then show ?thesis
    unfolding g by (simp add: len_byte_mod)
qed

lemma roundtrip_of_returned:
  assumes "GenerateRTUFrame c f = Some adu"
  shows "2 \<le> length adu
     \<and> (let body = take (length adu - 2) adu
        in adu = body @ [of_nat (unat (crc body) mod 256), of_nat (unat (crc body) div 256)])"
proof -
  have adu: "adu = (header c f @ Data f) @ crc_bytes (header c f @ Data f)"
    using assms GenerateRTUFrame_SomeD [OF assms] by (simp add: GenerateRTUFrame_fits)
  have l: "length (crc_bytes (header c f @ Data f)) = 2"
    by (simp add: crc_bytes_def)
  have "take (length adu - 2) adu = header c f @ Data f"
    by (subst (2) adu, subst adu) (simp add: l del: append_assoc)
  then show ?thesis
    using adu l by (simp add: Let_def crc_bytes_def)
qed

text \<open>
  C3: the encoder returns an ADU for every frame with no payload and for every frame
  whose payload leaves 9 bytes of the packet buffer free, and in every ADU it returns,
  of whichever layout, the last two bytes are the checksum of all the bytes before
  them, the low byte of the checksum first and the high byte second.
\<close>

theorem GenerateRTUFrame_roundtrip:
  "(Data f = [] \<or> length (Data f) + 9 \<le> RTU_FRAME_MAXSIZE c \<longrightarrow>
      (\<exists>adu. GenerateRTUFrame c f = Some adu))
   \<and> (\<forall>adu. GenerateRTUFrame c f = Some adu \<longrightarrow>
       2 \<le> length adu
       \<and> (let body = take (length adu - 2) adu
          in adu = body @ [of_nat (unat (crc body) mod 256), of_nat (unat (crc body) div 256)]))"
  using GenerateRTUFrame_room [of f c] roundtrip_of_returned [of c f] by blast

theorem GenerateRTUFrame_roundtrip_witness:
  "GenerateRTUFrame modbus_consts
     \<lparr>SlaveAddress = 0x11, FunctionCode = 0x10, StartRegister = 0x006B,
      NumberOfRegisters = 3, Data = [1, 2, 3, 4, 5, 6]\<rparr>
     = Some [0x11, 0x10, 0x00, 0x6B, 0x00, 0x03, 0x06, 1, 2, 3, 4, 5, 6, 0x10, 0x8D]
   \<and> [0x11, 0x10, 0x00, 0x6B, 0x00, 0x03, 0x06, 1, 2, 3, 4, 5, 6, 0x10, 0x8D]
     = [0x11, 0x10, 0x00, 0x6B, 0x00, 0x03, 0x06, 1, 2, 3, 4, 5, 6]
       @ [of_nat (unat (crc [0x11, 0x10, 0x00, 0x6B, 0x00, 0x03, 0x06, 1, 2, 3, 4, 5, 6]) mod 256),
          of_nat (unat (crc [0x11, 0x10, 0x00, 0x6B, 0x00, 0x03, 0x06, 1, 2, 3, 4, 5, 6]) div 256) :: byte]"
proof -
  let ?f = "\<lparr>SlaveAddress = 0x11, FunctionCode = 0x10, StartRegister = 0x006B,
      NumberOfRegisters = 3, Data = [1, 2, 3, 4, 5, 6]\<rparr>"
  let ?adu = "[0x11, 0x10, 0x00, 0x6B, 0x00, 0x03, 0x06, 1, 2, 3, 4, 5, 6, 0x10, 0x8D] :: byte list"
  have c2: "crc [0x11, 0x10, 0x00, 0x6B, 0x00, 0x03, 0x06, 1, 2, 3, 4, 5, 6] = 0x8D10"
    by code_simp
  have "fits modbus_consts ?f"
    by (simp add: fits_def header_def be16_def layout_def modbus_consts_def)
  then have g: "GenerateRTUFrame modbus_consts ?f = Some ?adu"
    by (simp add: GenerateRTUFrame_fits header_def be16_def layout_def modbus_consts_def
          crc_bytes_def c2)
  from GenerateRTUFrame_roundtrip [where f = "?f" and c = modbus_consts] g show ?thesis
    by (simp add: Let_def)
qed

text \<open>
  C4: the read-holding-registers request of the Modbus standard, slave 0x11, function
  0x03, start 0x006B, count 3, no payload, encodes to 11 03 00 6B 00 03 76 87. The
  function code 0x03 is a read code, none of the three write codes.
\<close>

theorem GenerateRTUFrame_read_holding_example:
  assumes "FUNCTION_WRITE_SINGLE_COIL c \<noteq> 0x03"
    and "FUNCTION_WRITE_SINGLE_REGISTER c \<noteq> 0x03"
    and "FUNCTION_WRITE_MULTIPLE_REGISTERS c \<noteq> 0x03"
  shows "GenerateRTUFrame c
     \<lparr>SlaveAddress = 0x11, FunctionCode = 0x03, StartRegister = 0x006B,
      NumberOfRegisters = 3, Data = []\<rparr>
     = Some [0x11, 0x03, 0x00, 0x6B, 0x00, 0x03, 0x76, 0x87]"
proof -
  let ?f = "\<lparr>SlaveAddress = 0x11, FunctionCode = 0x03, StartRegister = 0x006B,
      NumberOfRegisters = 3, Data = []\<rparr>"
  have l: "layout c 0x03 = (True, False)"
    using assms by (auto simp: layout_def)
  have "fits c ?f"
    by (simp add: fits_def)
  then show ?thesis
    by (simp add: GenerateRTUFrame_fits header_def be16_def l crc_bytes_def
          crc_read_holding_example)
qed

theorem GenerateRTUFrame_read_holding_example_witness:
  "FUNCTION_WRITE_SINGLE_COIL modbus_consts \<noteq> 0x03
   \<and> FUNCTION_WRITE_SINGLE_REGISTER modbus_consts \<noteq> 0x03
   \<and> FUNCTION_WRITE_MULTIPLE_REGISTERS modbus_consts \<noteq> 0x03
   \<and> GenerateRTUFrame modbus_consts
     \<lparr>SlaveAddress = 0x11, FunctionCode = 0x03, StartRegister = 0x006B,
      NumberOfRegisters = 3, Data = []\<rparr>
     = Some [0x11, 0x03, 0x00, 0x6B, 0x00, 0x03, 0x76, 0x87]"
proof -
  have h: "FUNCTION_WRITE_SINGLE_COIL modbus_consts \<noteq> 0x03"
    "FUNCTION_WRITE_SINGLE_REGISTER modbus_consts \<noteq> 0x03"
    "FUNCTION_WRITE_MULTIPLE_REGISTERS modbus_consts \<noteq> 0x03"
    by (simp_all add: modbus_consts_def)
  from GenerateRTUFrame_read_holding_example [OF h] h show ?thesis
    by simp
qed

text \<open>
  C8, as the code has it: with \<open>RTU_FRAME_MAXSIZE\<close> at least the 9 bytes of the largest
  frame without payload, a frame whose payload is empty, or whose header, payload and
  two checksum bytes together fit in \<open>RTU_FRAME_MAXSIZE\<close> bytes, is encoded; and every
  ADU the encoder returns has exactly as many bytes as its header, payload and
  checksum, at most \<open>RTU_FRAME_MAXSIZE\<close>. No check of the encoder rejects or truncates
  a longer payload.
\<close>

theorem GenerateRTUFrame_size:
  assumes "9 \<le> RTU_FRAME_MAXSIZE c"
  shows "(Data f = [] \<or> length (header c f) + length (Data f) + 2 \<le> RTU_FRAME_MAXSIZE c \<longrightarrow>
            (\<exists>adu. GenerateRTUFrame c f = Some adu))
     \<and> (\<forall>adu. GenerateRTUFrame c f = Some adu \<longrightarrow>
            length adu = length (header c f) + length (Data f) + 2
            \<and> length adu \<le> RTU_FRAME_MAXSIZE c)"
proof (intro conjI impI allI)
  assume "Data f = [] \<or> length (header c f) + length (Data f) + 2 \<le> RTU_FRAME_MAXSIZE c"
  then have "fits c f"
    by (simp add: fits_def)
  then show "\<exists>adu. GenerateRTUFrame c f = Some adu"
    by (simp add: GenerateRTUFrame_fits)
next
  fix adu
  assume g: "GenerateRTUFrame c f = Some adu"
  then have f: "fits c f"
    by (rule GenerateRTUFrame_SomeD)
  with g have adu: "adu = header c f @ Data f @ crc_bytes (header c f @ Data f)"
    by (simp add: GenerateRTUFrame_fits)
  then show "length adu = length (header c f) + length (Data f) + 2"
    by (simp add: crc_bytes_def)
  moreover have "length (header c f) + length (Data f) + 2 \<le> RTU_FRAME_MAXSIZE c"
    using f assms header_length [of c f] by (auto simp: fits_def)
  ultimately show "length adu \<le> RTU_FRAME_MAXSIZE c"
    by simp
qed

theorem GenerateRTUFrame_size_witness:
  "9 \<le> RTU_FRAME_MAXSIZE modbus_consts
   \<and> GenerateRTUFrame modbus_consts
       \<lparr>SlaveAddress = 0x11, FunctionCode = 0x10, StartRegister = 0x006B,
        NumberOfRegisters = 3, Data = [1, 2, 3, 4, 5, 6]\<rparr>
     = Some [0x11, 0x10, 0x00, 0x6B, 0x00, 0x03, 0x06, 1, 2, 3, 4, 5, 6, 0x10, 0x8D]
   \<and> length [0x11, 0x10, 0x00, 0x6B, 0x00, 0x03, 0x06, 1, 2, 3, 4, 5, 6, 0x10, 0x8D :: byte]
       \<le> RTU_FRAME_MAXSIZE modbus_consts"
proof -
  let ?f = "\<lparr>SlaveAddress = 0x11, FunctionCode = 0x10, StartRegister = 0x006B,
        NumberOfRegisters = 3, Data = [1, 2, 3, 4, 5, 6]\<rparr>"
  let ?adu = "[0x11, 0x10, 0x00, 0x6B, 0x00, 0x03, 0x06, 1, 2, 3, 4, 5, 6, 0x10, 0x8D] :: byte list"
  have m: "9 \<le> RTU_FRAME_MAXSIZE modbus_consts"
    by (simp add: modbus_consts_def)
  have c2: "crc [0x11, 0x10, 0x00, 0x6B, 0x00, 0x03, 0x06, 1, 2, 3, 4, 5, 6] = 0x8D10"
    by code_simp
  have "fits modbus_consts ?f"
    by (simp add: fits_def header_def be16_def layout_def modbus_consts_def)
  then have g: "GenerateRTUFrame modbus_consts ?f = Some ?adu"
    by (simp add: GenerateRTUFrame_fits header_def be16_def layout_def modbus_consts_def
          crc_bytes_def c2)
  from GenerateRTUFrame_size [OF m, where f = "?f"] g m show ?thesis
    by auto
qed

text \<open>
  The encoder is not total: on a payload of 600 bytes, with a packet buffer of 256
  bytes, a write runs past the buffer and the encoder panics. The same happens for
  every \<open>RTU_FRAME_MAXSIZE\<close> below header, payload and checksum together
  (lemma \<open>GenerateRTUFrame_overflow\<close>).
\<close>

theorem GenerateRTUFrame_overflow_counterexample:
  "GenerateRTUFrame modbus_consts
     \<lparr>SlaveAddress = 0x11, FunctionCode = 0x10, StartRegister = 0x0000,
      NumberOfRegisters = 300, Data = replicate 600 0\<rparr> = None"
  by (rule GenerateRTUFrame_overflow) (simp_all add: modbus_consts_def)

section \<open>The transaction\<close>

subsection \<open>Unfolding a transaction\<close>

lemma data_or_nil: "(if 0 < length data then data else []) = data"
  by (cases data) simp_all

lemmas viaRTU_unfold = viaRTU_def [unfolded data_or_nil]

lemmas io_defs = Let_def port_write_def port_read_def sleep_def println_def

lemma high_bit_set:
  fixes fc :: byte
  assumes "fc < 0x80"
  shows "(fc OR 0x80) AND 0x7f = fc" and "fc OR 0x80 \<noteq> fc"
proof -
  have a: "fc AND 0x7f = fc"
    using less_mask_eq [of fc 7] assms by (simp add: mask_eq_decr_exp)
  have "(fc OR 0x80) AND 0x7f = (fc AND 0x7f) OR (0x80 AND 0x7f)"
    by (simp add: bit.conj_disj_distrib2)
  then show "(fc OR 0x80) AND 0x7f = fc"
    using a by simp
  have "fc AND 0x80 = (fc AND 0x7f) AND 0x80"
    using a by simp
  also have "\<dots> = fc AND (0x7f AND 0x80)"
    by (simp only: and.assoc)
  finally have z: "fc AND 0x80 = 0"
    by simp
  show "fc OR 0x80 \<noteq> fc"
  proof
    assume e: "fc OR 0x80 = fc"
    have "(fc OR 0x80) AND 0x80 = 0x80"
      by (simp add: word_ao_absorbs)
    then have "fc AND 0x80 = 0x80"
      by (simp only: e)
    with z show False
      by simp
  qed
qed

text \<open>
  A reply whose address and function bytes are those of the request, with a count \<open>n\<close>
  between 2 and the size of the buffer: the outcome is decided by the checksum alone.
\<close>

lemma viaRTU_checked:
  fixes rtu :: "('s, 'e) RTUContext" and w :: "('s, 'e) world"
  assumes V: "fnValidator functionCode"
    and G: "GenerateRTUFrame c \<lparr>SlaveAddress = CfgSlaveAddress rtu, FunctionCode = functionCode,
              StartRegister = startRegister, NumberOfRegisters = numRegisters, Data = data\<rparr>
            = Some adu"
    and W: "Write rtu adu (fst w) = ((nw, None), s1)"
    and R: "Read rtu (RTU_FRAME_MAXSIZE c) s1 = ((rx, n, None), s2)"
    and resp: "response = take (RTU_FRAME_MAXSIZE c) rx
                 @ replicate (RTU_FRAME_MAXSIZE c - length rx) 0"
    and n: "2 \<le> n" "n \<le> int (RTU_FRAME_MAXSIZE c)"
    and a: "response ! 0 = CfgSlaveAddress rtu"
    and f: "response ! 1 = functionCode"
  shows "fst (viaRTU c rtu fnValidator functionCode startRegister numRegisters data w) =
     Return (take (nat n) response)
       (if [response ! nat (n - 2), response ! nat (n - 1)]
             = crc_bytes (take (nat (n - 2)) response)
        then None else Some (ModbusError BadChecksum))"
proof -
  have len: "length response = RTU_FRAME_MAXSIZE c"
    unfolding resp by simp
  have i: "index response 0 = Some (CfgSlaveAddress rtu)"
    "index response 1 = Some functionCode"
    "index response (n - 2) = Some (response ! nat (n - 2))"
    "index response (n - 1) = Some (response ! nat (n - 1))"
    "slice_to_int response (n - 2) = Some (take (nat (n - 2)) response)"
    "slice_to_int response n = Some (take (nat n) response)"
    using n len a f by (simp_all add: index_def slice_to_int_def)
  show ?thesis
    using V G W R i unfolding resp [symmetric]
    by (simp add: viaRTU_unfold io_defs resp [symmetric] orelse_def neq_def crc_bytes_def
          hi_byte lo_byte)
qed

text \<open>
  A reply with the address and function bytes of the request and a reported count
  below 2 has no checksum bytes: the slice \<open>response[:(n - 2)]\<close> is out of range and
  the call panics. The properties of the checksum below are about counts of at least 2.
\<close>

lemma viaRTU_short_read:
  fixes rtu :: "('s, 'e) RTUContext" and w :: "('s, 'e) world"
  assumes V: "fnValidator functionCode"
    and G: "GenerateRTUFrame c \<lparr>SlaveAddress = CfgSlaveAddress rtu, FunctionCode = functionCode,
              StartRegister = startRegister, NumberOfRegisters = numRegisters, Data = data\<rparr>
            = Some adu"
    and W: "Write rtu adu (fst w) = ((nw, None), s1)"
    and R: "Read rtu (RTU_FRAME_MAXSIZE c) s1 = ((rx, n, None), s2)"
    and resp: "response = take (RTU_FRAME_MAXSIZE c) rx
                 @ replicate (RTU_FRAME_MAXSIZE c - length rx) 0"
    and M: "2 \<le> RTU_FRAME_MAXSIZE c"
    and a: "response ! 0 = CfgSlaveAddress rtu"
    and f: "response ! 1 = functionCode"
    and n: "n < 2"
  shows "fst (viaRTU c rtu fnValidator functionCode startRegister numRegisters data w) = Panic"
proof -
  have len: "length response = RTU_FRAME_MAXSIZE c"
    unfolding resp by simp
  have i: "index response 0 = Some (CfgSlaveAddress rtu)"
    "index response 1 = Some functionCode"
    "slice_to_int response (n - 2) = None"
    using n M len a f by (simp_all add: index_def slice_to_int_def)
  show ?thesis
    using V G W R i unfolding resp [symmetric]
    by (simp add: viaRTU_unfold io_defs resp [symmetric] orelse_def neq_def)
qed

subsection \<open>The debug flag\<close>

lemma viaRTU_debug_off:
  "observable (viaRTU c rtu v fc sr nr data w)
     = observable (viaRTU c (rtu\<lparr>Debug := False\<rparr>) v fc sr nr data w)"
proof (cases "v fc")
  case False
  then show ?thesis by (simp add: viaRTU_def)
next
  case V: True
  let ?frame = "\<lparr>SlaveAddress = CfgSlaveAddress rtu, FunctionCode = fc,
              StartRegister = sr, NumberOfRegisters = nr, Data = data\<rparr>"
  note defs = viaRTU_unfold io_defs observable_def is_log_def
  show ?thesis
  proof (cases "GenerateRTUFrame c ?frame")
    case None
    with V show ?thesis by (simp add: defs)
  next
    case G: (Some adu)
    obtain nw werr s1 where W: "Write rtu adu (fst w) = ((nw, werr), s1)"
      by (metis prod.exhaust)
    show ?thesis
    proof (cases werr)
      case (Some e)
      with V G W show ?thesis
        by (simp add: defs)
    next
      case None
      obtain rx n rerr s2 where R: "Read rtu (RTU_FRAME_MAXSIZE c) s1 = ((rx, n, rerr), s2)"
        by (metis prod.exhaust)
      show ?thesis
      proof (cases rerr)
        case (Some e)
        with V G W R None show ?thesis
          by (simp add: defs)
      next
        case rNone: None
        let ?resp = "take (RTU_FRAME_MAXSIZE c) rx
                       @ replicate (RTU_FRAME_MAXSIZE c - length rx) (0::byte)"
        let ?o1 = "orelse (neq (index ?resp 0) (CfgSlaveAddress rtu)) (neq (index ?resp 1) fc)"
        let ?a1 = "andalso (eq (index ?resp 0) (CfgSlaveAddress rtu))
                     (eq (map_option (\<lambda>b. b AND 0x7f) (index ?resp 1)) fc)"
        let ?o2 = "\<lambda>body. orelse (neq (index ?resp (n - 2)) (ucast (crc body AND 0xff)))
                     (neq (index ?resp (n - 1)) (ucast (drop_bit 8 (crc body))))"
        note io = V G W R None rNone
        show ?thesis
        proof (cases ?o1)
          case None
          with io show ?thesis by (simp add: defs)
        next
          case o1: (Some b1)
          show ?thesis
          proof (cases b1)
            case True
            show ?thesis
            proof (cases ?a1)
              case None
              with io o1 True show ?thesis by (simp add: defs)
            next
              case a1: (Some b2)
              show ?thesis
              proof (cases b2)
                case b2: True
                show ?thesis
                proof (cases "index ?resp 2")
                  case None
                  with io o1 True a1 b2 show ?thesis by (simp add: defs)
                next
                  case (Some code)
                  with io o1 True a1 b2 show ?thesis by (simp add: defs)
                qed
              next
                case False
                with io o1 True a1 show ?thesis by (simp add: defs)
              qed
            qed
          next
            case False
            show ?thesis
            proof (cases "slice_to_int ?resp (n - 2)")
              case None
              with io o1 False show ?thesis by (simp add: defs)
            next
              case sl: (Some body)
              show ?thesis
              proof (cases "?o2 body")
                case None
                with io o1 False sl show ?thesis by (simp add: defs)
              next
                case o2: (Some b3)
                show ?thesis
                proof (cases "slice_to_int ?resp n")
                  case None
                  with io o1 False sl o2 show ?thesis by (cases b3) (simp_all add: defs)
                next
                  case (Some received)
                  with io o1 False sl o2 show ?thesis by (cases b3) (simp_all add: defs)
                qed
              qed
            qed
          qed
        qed
      qed
    qed
  qed
qed

lemma viaRTU_error_empty_nodebug:
  "\<not> Debug rtu \<Longrightarrow> fst (viaRTU c rtu v fc sr nr data w) = Return bytes (Some e) \<Longrightarrow>
   e \<noteq> ModbusError BadChecksum \<Longrightarrow> bytes = []"
  by (auto simp: viaRTU_def Let_def port_write_def port_read_def sleep_def
      split: option.splits prod.splits bool.splits if_splits)

lemma viaRTU_error_empty:
  assumes "fst (viaRTU c rtu v fc sr nr data w) = Return bytes (Some e)"
    and "e \<noteq> ModbusError BadChecksum"
  shows "bytes = []"
proof -
  have "fst (viaRTU c (rtu\<lparr>Debug := False\<rparr>) v fc sr nr data w) = Return bytes (Some e)"
    using viaRTU_debug_off [of c rtu v fc sr nr data w] assms(1)
    by (simp add: observable_def)
  then show ?thesis
    using viaRTU_error_empty_nodebug [of "rtu\<lparr>Debug := False\<rparr>"] assms(2) by simp
qed

subsection \<open>Transactions on the mock transport\<close>

lemma mock_write: "Write (mock_rtu r d) adu s = ((int (length adu), None), s)"
  by (simp add: mock_rtu_def)

lemma mock_read:
  "Read (mock_rtu r d) len s = ((take len r, int (length (take len r)), None), s)"
  by (simp add: mock_rtu_def)

lemma mock_frame:
  "GenerateRTUFrame modbus_consts
     \<lparr>SlaveAddress = CfgSlaveAddress (mock_rtu r d), FunctionCode = 0x03,
      StartRegister = 0x006B, NumberOfRegisters = 3, Data = []\<rparr>
   = Some [0x11, 0x03, 0x00, 0x6B, 0x00, 0x03, 0x76, 0x87]"
  by (simp add: GenerateRTUFrame_fits fits_def header_def be16_def layout_def crc_bytes_def
        modbus_consts_def mock_rtu_def crc_read_holding_example)

subsection \<open>Properties of a transaction\<close>

text \<open>
  C7: when the predicate rejects the function code, the call returns the
  illegal-function error with no bytes and leaves the world as it was: the state of
  the transport is untouched and no effect (write, sleep, read, log line) is added.
\<close>

theorem viaRTU_rejected:
  assumes "\<not> fnValidator functionCode"
  shows "viaRTU c rtu fnValidator functionCode startRegister numRegisters data w
     = (Return [] (Some (ModbusError IllegalFunction)), w)"
  using assms by (simp add: viaRTU_def)

theorem viaRTU_rejected_witness:
  "\<not> (\<lambda>fc. fc = 0x05 \<or> fc = 0x06 \<or> fc = 0x10) (0x03 :: byte)
   \<and> viaRTU modbus_consts (mock_rtu [] True) (\<lambda>fc. fc = 0x05 \<or> fc = 0x06 \<or> fc = 0x10)
        0x03 0x006B 3 [] ((), [])
     = (Return [] (Some (ModbusError IllegalFunction)), ((), []))"
proof -
  have h: "\<not> (\<lambda>fc. fc = 0x05 \<or> fc = 0x06 \<or> fc = 0x10) (0x03 :: byte)"
    by simp
  from viaRTU_rejected [where fnValidator = "\<lambda>fc. fc = 0x05 \<or> fc = 0x06 \<or> fc = 0x10"
      and functionCode = "0x03", OF h] h
  show ?thesis
    by simp
qed

text \<open>
  C5: a transaction that reaches the reply (the predicate admits the function code, the
  frame is encoded, the write and the read succeed), on a buffer \<open>response\<close> of at least
  three bytes. The function code of the request has its high bit clear, as the function
  codes of the protocol have. When the first byte of the reply is the slave address and
  the second is the function code with its high bit set, the third byte is mapped
  through the exception table, every byte other than 0x01 to 0x04 to the unspecified
  exception; a reply with another first byte gives the unspecified exception. No bytes
  are returned with these errors.
\<close>

theorem viaRTU_exception_mapping:
  fixes rtu :: "('s, 'e) RTUContext" and w :: "('s, 'e) world"
  assumes V: "fnValidator functionCode"
    and G: "GenerateRTUFrame c \<lparr>SlaveAddress = CfgSlaveAddress rtu, FunctionCode = functionCode,
              StartRegister = startRegister, NumberOfRegisters = numRegisters, Data = data\<rparr>
            = Some adu"
    and W: "Write rtu adu (fst w) = ((nw, None), s1)"
    and R: "Read rtu (RTU_FRAME_MAXSIZE c) s1 = ((rx, n, None), s2)"
    and resp: "response = take (RTU_FRAME_MAXSIZE c) rx
                 @ replicate (RTU_FRAME_MAXSIZE c - length rx) 0"
    and M: "3 \<le> RTU_FRAME_MAXSIZE c"
    and fc: "functionCode < 0x80"
  shows "(response ! 0 = CfgSlaveAddress rtu \<and> response ! 1 = functionCode OR 0x80 \<longrightarrow>
            fst (viaRTU c rtu fnValidator functionCode startRegister numRegisters data w) =
              Return [] (Some (ModbusError
                (if response ! 2 = 0x01 then IllegalFunction
                 else if response ! 2 = 0x02 then IllegalDataAddress
                 else if response ! 2 = 0x03 then IllegalDataValue
                 else if response ! 2 = 0x04 then SlaveDeviceFailure
                 else Unspecified))))
       \<and> (response ! 0 \<noteq> CfgSlaveAddress rtu \<longrightarrow>
            fst (viaRTU c rtu fnValidator functionCode startRegister numRegisters data w) =
              Return [] (Some (ModbusError Unspecified)))"
proof -
  have len: "length response = RTU_FRAME_MAXSIZE c"
    unfolding resp by simp
  have i: "index response 0 = Some (response ! 0)" "index response 1 = Some (response ! 1)"
    "index response 2 = Some (response ! 2)"
    using M len by (simp_all add: index_def)
  note hb = high_bit_set [OF fc]
  show ?thesis
    using V G W R i hb unfolding resp
    by (simp add: viaRTU_unfold io_defs orelse_def andalso_def neq_def eq_def
          EXCEPTION_ILLEGAL_FUNCTION_def EXCEPTION_DATA_ADDRESS_def EXCEPTION_DATA_VALUE_def
          EXCEPTION_SLAVE_DEVICE_FAILURE_def)
qed

theorem viaRTU_exception_mapping_witness:
  "fst (viaRTU modbus_consts (mock_rtu [0x11, 0x83, 0x02, 0xC1, 0x34] False) (\<lambda>fc. fc = 0x03)
          0x03 0x006B 3 [] ((), []))
     = Return [] (Some (ModbusError IllegalDataAddress))
   \<and> fst (viaRTU modbus_consts (mock_rtu [0x11, 0x83, 0xFF, 0x00, 0x00] False) (\<lambda>fc. fc = 0x03)
          0x03 0x006B 3 [] ((), []))
     = Return [] (Some (ModbusError Unspecified))
   \<and> fst (viaRTU modbus_consts (mock_rtu [0x12, 0x03, 0x02, 0x00, 0x01, 0x00, 0x00] False)
          (\<lambda>fc. fc = 0x03) 0x03 0x006B 3 [] ((), []))
     = Return [] (Some (ModbusError Unspecified))"
proof -
  have m: "3 \<le> RTU_FRAME_MAXSIZE modbus_consts"
    by (simp add: modbus_consts_def)
  have v: "(\<lambda>fc. fc = 0x03) (0x03 :: byte)" and c: "(0x03 :: byte) < 0x80"
    by simp_all
  note t = viaRTU_exception_mapping [where fnValidator = "\<lambda>fc. fc = 0x03" and w = "((), [])",
      OF v mock_frame mock_write mock_read refl m c]
  have "fst (viaRTU modbus_consts (mock_rtu [0x11, 0x83, 0x02, 0xC1, 0x34] False)
          (\<lambda>fc. fc = 0x03) 0x03 0x006B 3 [] ((), []))
     = Return [] (Some (ModbusError IllegalDataAddress))"
    using t [of "[0x11, 0x83, 0x02, 0xC1, 0x34]" False]
    by (simp add: modbus_consts_def mock_rtu_def)
  moreover have "fst (viaRTU modbus_consts (mock_rtu [0x11, 0x83, 0xFF, 0x00, 0x00] False)
          (\<lambda>fc. fc = 0x03) 0x03 0x006B 3 [] ((), []))
     = Return [] (Some (ModbusError Unspecified))"
    using t [of "[0x11, 0x83, 0xFF, 0x00, 0x00]" False]
    by (simp add: modbus_consts_def mock_rtu_def)
  moreover have "fst (viaRTU modbus_consts
          (mock_rtu [0x12, 0x03, 0x02, 0x00, 0x01, 0x00, 0x00] False)
          (\<lambda>fc. fc = 0x03) 0x03 0x006B 3 [] ((), []))
     = Return [] (Some (ModbusError Unspecified))"
    using t [of "[0x12, 0x03, 0x02, 0x00, 0x01, 0x00, 0x00]" False]
    by (simp add: modbus_consts_def mock_rtu_def)
  ultimately show ?thesis
    by simp
qed

text \<open>
  C6: a transaction that reaches the reply, with a reported count \<open>n\<close> of at least the
  two checksum bytes and at most the size of the buffer. When the address and function
  bytes of the reply are those of the request and its last two bytes are not the
  checksum of the bytes before them (low byte, then high byte), the call returns the
  bad-checksum error together with the first \<open>n\<close> bytes of the buffer, which are the
  received bytes when the transport reports as many bytes as it stored.
\<close>

theorem viaRTU_bad_checksum:
  fixes rtu :: "('s, 'e) RTUContext" and w :: "('s, 'e) world"
  assumes V: "fnValidator functionCode"
    and G: "GenerateRTUFrame c \<lparr>SlaveAddress = CfgSlaveAddress rtu, FunctionCode = functionCode,
              StartRegister = startRegister, NumberOfRegisters = numRegisters, Data = data\<rparr>
            = Some adu"
    and W: "Write rtu adu (fst w) = ((nw, None), s1)"
    and R: "Read rtu (RTU_FRAME_MAXSIZE c) s1 = ((rx, n, None), s2)"
    and resp: "response = take (RTU_FRAME_MAXSIZE c) rx
                 @ replicate (RTU_FRAME_MAXSIZE c - length rx) 0"
    and n: "2 \<le> n" "n \<le> int (RTU_FRAME_MAXSIZE c)"
    and a: "response ! 0 = CfgSlaveAddress rtu"
    and f: "response ! 1 = functionCode"
    and bad: "[response ! nat (n - 2), response ! nat (n - 1)]
                \<noteq> crc_bytes (take (nat (n - 2)) response)"
  shows "fst (viaRTU c rtu fnValidator functionCode startRegister numRegisters data w)
           = Return (take (nat n) response) (Some (ModbusError BadChecksum))
     \<and> (int (length rx) = n \<longrightarrow> take (nat n) response = rx)"
proof -
  have "take (nat n) response = rx" if "int (length rx) = n"
    using that n(2) unfolding resp by auto
  then show ?thesis
    using viaRTU_checked [where fnValidator = fnValidator and functionCode = functionCode,
        OF V G W R resp n a f] bad
    by simp
qed

theorem viaRTU_bad_checksum_witness:
  "fst (viaRTU modbus_consts (mock_rtu [0x11, 0x03, 0x02, 0x00, 0x01, 0xB8, 0x46] False)
          (\<lambda>fc. fc = 0x03) 0x03 0x006B 3 [] ((), []))
     = Return [0x11, 0x03, 0x02, 0x00, 0x01, 0xB8, 0x46] (Some (ModbusError BadChecksum))
   \<and> crc_bytes [0x11, 0x03, 0x02, 0x00, 0x01] = [0xB8, 0x47]"
proof -
  let ?r = "[0x11, 0x03, 0x02, 0x00, 0x01, 0xB8, 0x46] :: byte list"
  let ?resp = "take (RTU_FRAME_MAXSIZE modbus_consts) (take (RTU_FRAME_MAXSIZE modbus_consts) ?r)
     @ replicate (RTU_FRAME_MAXSIZE modbus_consts
         - length (take (RTU_FRAME_MAXSIZE modbus_consts) ?r)) (0 :: byte)"
  have k: "crc [0x11, 0x03, 0x02, 0x00, 0x01] = 0x47B8"
    by code_simp
  then have cb: "crc_bytes [0x11, 0x03, 0x02, 0x00, 0x01] = [0xB8, 0x47]"
    by (simp add: crc_bytes_def)
  have v: "(\<lambda>fc. fc = 0x03) (0x03 :: byte)"
    by simp
  have n: "(2 :: int) \<le> int (length (take (RTU_FRAME_MAXSIZE modbus_consts) ?r))"
    "int (length (take (RTU_FRAME_MAXSIZE modbus_consts) ?r)) \<le> int (RTU_FRAME_MAXSIZE modbus_consts)"
    by (simp_all add: modbus_consts_def)
  have a: "?resp ! 0 = CfgSlaveAddress (mock_rtu ?r False)" and f: "?resp ! 1 = 0x03"
    by (simp_all add: modbus_consts_def mock_rtu_def)
  have bad: "[?resp ! nat (int (length (take (RTU_FRAME_MAXSIZE modbus_consts) ?r)) - 2),
              ?resp ! nat (int (length (take (RTU_FRAME_MAXSIZE modbus_consts) ?r)) - 1)]
       \<noteq> crc_bytes (take (nat (int (length (take (RTU_FRAME_MAXSIZE modbus_consts) ?r)) - 2)) ?resp)"
    by (simp add: modbus_consts_def cb)
  from viaRTU_bad_checksum [where fnValidator = "\<lambda>fc. fc = 0x03" and w = "((), [])",
      OF v mock_frame mock_write mock_read refl n a f bad] cb
  show ?thesis
    by (simp add: modbus_consts_def)
qed

text \<open>
  C9: in a transaction that reaches the reply, with a count \<open>n\<close> between 2 and the size
  of the buffer, whose address byte, function byte and checksum all validate, the call
  returns the first \<open>n\<close> bytes of the buffer and no error. And whenever the call
  returns an error other than the bad-checksum exception, the bytes returned with it
  are empty.
\<close>

theorem viaRTU_returned_bytes:
  fixes rtu :: "('s, 'e) RTUContext" and w :: "('s, 'e) world"
  shows "(fnValidator functionCode
       \<and> GenerateRTUFrame c \<lparr>SlaveAddress = CfgSlaveAddress rtu, FunctionCode = functionCode,
              StartRegister = startRegister, NumberOfRegisters = numRegisters, Data = data\<rparr>
            = Some adu
       \<and> Write rtu adu (fst w) = ((nw, None), s1)
       \<and> Read rtu (RTU_FRAME_MAXSIZE c) s1 = ((rx, n, None), s2)
       \<and> response = take (RTU_FRAME_MAXSIZE c) rx
                 @ replicate (RTU_FRAME_MAXSIZE c - length rx) 0
       \<and> 2 \<le> n \<and> n \<le> int (RTU_FRAME_MAXSIZE c)
       \<and> response ! 0 = CfgSlaveAddress rtu
       \<and> response ! 1 = functionCode
       \<and> [response ! nat (n - 2), response ! nat (n - 1)]
            = crc_bytes (take (nat (n - 2)) response)
       \<longrightarrow> fst (viaRTU c rtu fnValidator functionCode startRegister numRegisters data w)
             = Return (take (nat n) response) None)
     \<and> (\<forall>bytes e.
          fst (viaRTU c rtu fnValidator functionCode startRegister numRegisters data w)
             = Return bytes (Some e)
          \<and> e \<noteq> ModbusError BadChecksum
          \<longrightarrow> bytes = [])"
proof (intro conjI impI allI)
  assume h: "fnValidator functionCode
       \<and> GenerateRTUFrame c \<lparr>SlaveAddress = CfgSlaveAddress rtu, FunctionCode = functionCode,
              StartRegister = startRegister, NumberOfRegisters = numRegisters, Data = data\<rparr>
            = Some adu
       \<and> Write rtu adu (fst w) = ((nw, None), s1)
       \<and> Read rtu (RTU_FRAME_MAXSIZE c) s1 = ((rx, n, None), s2)
       \<and> response = take (RTU_FRAME_MAXSIZE c) rx
                 @ replicate (RTU_FRAME_MAXSIZE c - length rx) 0
       \<and> 2 \<le> n \<and> n \<le> int (RTU_FRAME_MAXSIZE c)
       \<and> response ! 0 = CfgSlaveAddress rtu
       \<and> response ! 1 = functionCode
       \<and> [response ! nat (n - 2), response ! nat (n - 1)]
            = crc_bytes (take (nat (n - 2)) response)"
  then have V: "fnValidator functionCode"
    and G: "GenerateRTUFrame c \<lparr>SlaveAddress = CfgSlaveAddress rtu, FunctionCode = functionCode,
              StartRegister = startRegister, NumberOfRegisters = numRegisters, Data = data\<rparr>
            = Some adu"
    and W: "Write rtu adu (fst w) = ((nw, None), s1)"
    and R: "Read rtu (RTU_FRAME_MAXSIZE c) s1 = ((rx, n, None), s2)"
    and resp: "response = take (RTU_FRAME_MAXSIZE c) rx
                 @ replicate (RTU_FRAME_MAXSIZE c - length rx) 0"
    and n: "2 \<le> n" "n \<le> int (RTU_FRAME_MAXSIZE c)"
    and a: "response ! 0 = CfgSlaveAddress rtu"
    and f: "response ! 1 = functionCode"
    and ok: "[response ! nat (n - 2), response ! nat (n - 1)]
            = crc_bytes (take (nat (n - 2)) response)"
    by blast+
  have r: "fst (viaRTU c rtu fnValidator functionCode startRegister numRegisters data w) =
     Return (take (nat n) response)
       (if [response ! nat (n - 2), response ! nat (n - 1)]
             = crc_bytes (take (nat (n - 2)) response)
        then None else Some (ModbusError BadChecksum))"
    by (rule viaRTU_checked [where fnValidator = fnValidator and functionCode = functionCode,
          OF V G W R resp n a f])
  from r ok show "fst (viaRTU c rtu fnValidator functionCode startRegister numRegisters data w)
             = Return (take (nat n) response) None"
    by simp
next
  fix bytes e
  assume "fst (viaRTU c rtu fnValidator functionCode startRegister numRegisters data w)
             = Return bytes (Some e) \<and> e \<noteq> ModbusError BadChecksum"
  then show "bytes = []"
    using viaRTU_error_empty by blast
qed

theorem viaRTU_returned_bytes_witness:
  "fst (viaRTU modbus_consts
          (mock_rtu [0x11, 0x03, 0x06, 0xAE, 0x41, 0x56, 0x52, 0x43, 0x40, 0x49, 0xAD] False)
          (\<lambda>fc. fc = 0x03) 0x03 0x006B 3 [] ((), []))
     = Return [0x11, 0x03, 0x06, 0xAE, 0x41, 0x56, 0x52, 0x43, 0x40, 0x49, 0xAD] None
   \<and> crc_bytes [0x11, 0x03, 0x06, 0xAE, 0x41, 0x56, 0x52, 0x43, 0x40] = [0x49, 0xAD]"
proof -
  let ?r = "[0x11, 0x03, 0x06, 0xAE, 0x41, 0x56, 0x52, 0x43, 0x40, 0x49, 0xAD] :: byte list"
  let ?resp = "take (RTU_FRAME_MAXSIZE modbus_consts) (take (RTU_FRAME_MAXSIZE modbus_consts) ?r)
     @ replicate (RTU_FRAME_MAXSIZE modbus_consts
         - length (take (RTU_FRAME_MAXSIZE modbus_consts) ?r)) (0 :: byte)"
  let ?n = "int (length (take (RTU_FRAME_MAXSIZE modbus_consts) ?r))"
  have k: "crc [0x11, 0x03, 0x06, 0xAE, 0x41, 0x56, 0x52, 0x43, 0x40] = 0xAD49"
    by code_simp
  then have cb: "crc_bytes [0x11, 0x03, 0x06, 0xAE, 0x41, 0x56, 0x52, 0x43, 0x40] = [0x49, 0xAD]"
    by (simp add: crc_bytes_def)
  have h: "(\<lambda>fc. fc = 0x03) (0x03 :: byte)
       \<and> GenerateRTUFrame modbus_consts
            \<lparr>SlaveAddress = CfgSlaveAddress (mock_rtu ?r False), FunctionCode = 0x03,
              StartRegister = 0x006B, NumberOfRegisters = 3, Data = []\<rparr>
            = Some [0x11, 0x03, 0x00, 0x6B, 0x00, 0x03, 0x76, 0x87]
       \<and> Write (mock_rtu ?r False) [0x11, 0x03, 0x00, 0x6B, 0x00, 0x03, 0x76, 0x87] (fst ((), []))
            = ((int (length [0x11, 0x03, 0x00, 0x6B, 0x00, 0x03, 0x76, 0x87 :: byte]), None), ())
       \<and> Read (mock_rtu ?r False) (RTU_FRAME_MAXSIZE modbus_consts) ()
            = ((take (RTU_FRAME_MAXSIZE modbus_consts) ?r, ?n, None), ())
       \<and> ?resp = take (RTU_FRAME_MAXSIZE modbus_consts) (take (RTU_FRAME_MAXSIZE modbus_consts) ?r)
             @ replicate (RTU_FRAME_MAXSIZE modbus_consts
                 - length (take (RTU_FRAME_MAXSIZE modbus_consts) ?r)) 0
       \<and> 2 \<le> ?n \<and> ?n \<le> int (RTU_FRAME_MAXSIZE modbus_consts)
       \<and> ?resp ! 0 = CfgSlaveAddress (mock_rtu ?r False)
       \<and> ?resp ! 1 = 0x03
       \<and> [?resp ! nat (?n - 2), ?resp ! nat (?n - 1)] = crc_bytes (take (nat (?n - 2)) ?resp)"
    by (simp add: mock_frame mock_write mock_read) (simp add: modbus_consts_def mock_rtu_def cb)
  from viaRTU_returned_bytes [where fnValidator = "\<lambda>fc. fc = 0x03" and w = "((), [])"
      and rtu = "mock_rtu ?r False" and c = modbus_consts and functionCode = "0x03"
      and startRegister = "0x006B" and numRegisters = "3" and data = "[]"
      and adu = "[0x11, 0x03, 0x00, 0x6B, 0x00, 0x03, 0x76, 0x87]"
      and nw = "int (length [0x11, 0x03, 0x00, 0x6B, 0x00, 0x03, 0x76, 0x87 :: byte])"
      and ?s1.0 = "()" and rx = "take (RTU_FRAME_MAXSIZE modbus_consts) ?r" and n = "?n"
      and ?s2.0 = "()" and response = "?resp"] h
  have "fst (viaRTU modbus_consts (mock_rtu ?r False) (\<lambda>fc. fc = 0x03) 0x03 0x006B 3 []
          ((), [])) = Return (take (nat ?n) ?resp) None"
    by blast
  then show ?thesis
    using cb by (simp add: modbus_consts_def)
qed

text \<open>
  C10: the debug flag changes nothing but the printed log lines. Two transactions that
  differ in the flag alone return the same bytes and the same error, leave the
  transport in the same state and have the same effects other than log lines.
\<close>

theorem viaRTU_debug_irrelevant:
  "fst (viaRTU c (rtu\<lparr>Debug := True\<rparr>) fnValidator functionCode startRegister numRegisters data w)
     = fst (viaRTU c (rtu\<lparr>Debug := False\<rparr>) fnValidator functionCode startRegister
              numRegisters data w)
   \<and> observable (viaRTU c (rtu\<lparr>Debug := True\<rparr>) fnValidator functionCode startRegister
         numRegisters data w)
     = observable (viaRTU c (rtu\<lparr>Debug := False\<rparr>) fnValidator functionCode startRegister
         numRegisters data w)"
proof -
  have "observable (viaRTU c (rtu\<lparr>Debug := True\<rparr>) fnValidator functionCode startRegister
         numRegisters data w)
     = observable (viaRTU c (rtu\<lparr>Debug := False\<rparr>) fnValidator functionCode startRegister
         numRegisters data w)"
    using viaRTU_debug_off [of c "rtu\<lparr>Debug := True\<rparr>"] by simp
  then show ?thesis
    by (simp add: observable_def)
qed

end
